theory Spec2Isabelle
  imports Main "HOL-Library.Word"
begin

section \<open>The DID wallet simulator: registry and resolver (main.go)\<close>

text \<open>
  The program keeps DID documents in a registry, a Go map from the document's identifier
  to the document, and reads them back through a resolver that holds a pointer to the
  registry. This theory embeds the two methods \<open>RegisterDID\<close> and \<open>ResolveDID\<close>
  and the data they work on.

  Conventions of the embedding:
  \<^item> a Go struct is a record with the source's field names;
  \<^item> a Go slice is a list, a Go map a partial function; both are reference types with
    a \<open>nil\<close> value, which is \<open>None\<close> here, so that the zero value of a struct is
    told apart from a struct holding an empty slice or an empty map;
  \<^item> a pointer to a registry is an address into a store of registries, \<open>None\<close>
    being the nil pointer: the resolver and the caller of \<open>RegisterDID\<close> then see
    the same registry;
  \<^item> a run-time panic is a value: every method returns its outcome, \<open>Inl\<close> a panic
    or \<open>Inr\<close> the returned values, together with the store it leaves behind.

  A document is stored and returned by value. Its slice and its two maps are references
  in Go, shared between the caller's document, the stored one and the one resolved; the
  methods never write through them, and the properties below speak of the documents as
  they are when the calls return.
\<close>

subsection \<open>Data model\<close>

type_synonym byte = "8 word"

text \<open>A slice \<open>[]T\<close> and a map \<open>map[K]V\<close>; \<open>None\<close> is \<open>nil\<close>.\<close>

type_synonym 'a slice = "'a list option"
type_synonym ('k, 'v) gomap = "('k \<rightharpoonup> 'v) option"

text \<open>\<open>type VerificationMethod struct\<close> (main.go, lines 13-18).\<close>

record VerificationMethod =
  ID :: string
  Type :: string
  Controller :: string
  PublicKey :: "byte slice"

text \<open>\<open>type DIDDocument struct\<close> (main.go, lines 21-28).\<close>

record DIDDocument =
  Context :: string
  ID :: string
  Controller :: string
  VerificationMethods :: "VerificationMethod slice"
  VerificationRelations :: "(string, string slice) gomap"
  ServiceEndPoints :: "(string, string) gomap"

text \<open>
  The zero value of \<open>DIDDocument\<close>: empty strings, nil slice, nil maps. Go yields it
  when a map is read at a key it does not hold.
\<close>

definition zero_DIDDocument :: DIDDocument where
  "zero_DIDDocument =
     \<lparr>Context = [], ID = [], Controller = [],
      VerificationMethods = None, VerificationRelations = None, ServiceEndPoints = None\<rparr>"

text \<open>
  \<open>type VerifiableDataRegistry struct\<close> (main.go, lines 31-34). The field \<open>mu\<close>, a
  \<open>sync.Mutex\<close>, is not a field of the record. Both methods lock it on entry and
  release it by a deferred \<open>Unlock\<close> on every way out, the panicking one included, and
  nothing else in the program touches it: between two calls of one sequential run the
  mutex is always free, and a call changes nothing of it. What it adds, the mutual
  exclusion of calls that run at the same time, is outside a sequential embedding.
\<close>

record VerifiableDataRegistry =
  records :: "(string, DIDDocument) gomap"

text \<open>
  The store holds the registries. Go has no dangling pointer, so every address holds a
  registry and the store is a total function.
\<close>

type_synonym addr = nat
type_synonym store = "addr \<Rightarrow> VerifiableDataRegistry"

text \<open>\<open>type DIDResolver struct\<close> (main.go, lines 37-39).\<close>

record DIDResolver =
  registry :: "addr option"

text \<open>The run-time panics of the two methods, and Go's \<open>error\<close> values.\<close>

datatype panic = NilDereference | NilMapAssignment

datatype error = Error string

subsection \<open>Go's map operations\<close>

text \<open>
  \<open>v, ok := m[k]\<close>: the stored value and \<open>true\<close>, or the zero value and \<open>false\<close>
  when \<open>k\<close> is not a key of \<open>m\<close>; reading a nil map is allowed and finds nothing.
\<close>

definition map_index :: "(string, DIDDocument) gomap \<Rightarrow> string \<Rightarrow> DIDDocument \<times> bool" where
  "map_index m k =
     (case m of
        None \<Rightarrow> (zero_DIDDocument, False)
      | Some f \<Rightarrow> (case f k of None \<Rightarrow> (zero_DIDDocument, False) | Some v \<Rightarrow> (v, True)))"

text \<open>
  \<open>m[k] = v\<close>: inserts or overwrites the entry of \<open>k\<close>; on a nil map it panics
  (``assignment to entry in nil map'').
\<close>

definition map_assign ::
  "(string, DIDDocument) gomap \<Rightarrow> string \<Rightarrow> DIDDocument \<Rightarrow> panic + (string, DIDDocument) gomap" where
  "map_assign m k v =
     (case m of None \<Rightarrow> Inl NilMapAssignment | Some f \<Rightarrow> Inr (Some (f(k \<mapsto> v))))"

subsection \<open>The methods\<close>

text \<open>
  \<open>func (registry *VerifiableDataRegistry) RegisterDID(doc DIDDocument) error\<close>
  (main.go, lines 47-52). The receiver is a pointer: on the nil pointer the first access
  to the registry panics. Otherwise the document is written under its own \<open>ID\<close> and
  the method returns the nil error, here \<open>None\<close>. A panic leaves the store as it was.
  The receiver is named \<open>reg\<close>, since \<open>registry\<close> is the resolver's field.
\<close>

definition RegisterDID ::
  "addr option \<Rightarrow> DIDDocument \<Rightarrow> store \<Rightarrow> (panic + error option) \<times> store" where
  "RegisterDID reg doc s =
     (case reg of
        None \<Rightarrow> (Inl NilDereference, s)
      | Some a \<Rightarrow>
          (case map_assign (records (s a)) (DIDDocument.ID doc) doc of
             Inl p \<Rightarrow> (Inl p, s)
           | Inr m \<Rightarrow> (Inr None, s(a := (s a)\<lparr>records := m\<rparr>))))"

text \<open>
  \<open>func (resolver *DIDResolver) ResolveDID(did string) (*DIDDocument, bool)\<close>
  (main.go, lines 55-60). The receiver is a pointer to a resolver (\<open>None\<close>: nil), whose
  \<open>registry\<close> field is a pointer in turn; dereferencing either nil pointer panics. The
  method reads the map into the local variable \<open>doc\<close> and returns \<open>&doc\<close>: a pointer
  to that fresh copy, never nil. The returned pointer is modelled by its target,
  \<open>Some doc\<close>; \<open>None\<close> would be the nil pointer.
\<close>

definition ResolveDID ::
  "DIDResolver option \<Rightarrow> string \<Rightarrow> store \<Rightarrow> (panic + DIDDocument option \<times> bool) \<times> store" where
  "ResolveDID resolver did s =
     (case resolver of
        None \<Rightarrow> (Inl NilDereference, s)
      | Some r \<Rightarrow>
          (case registry r of
             None \<Rightarrow> (Inl NilDereference, s)
           | Some a \<Rightarrow>
               (let (doc, found) = map_index (records (s a)) did
                in (Inr (Some doc, found), s))))"

subsection \<open>Registries and callers\<close>

text \<open>
  The registry \<open>main\<close> builds (main.go, lines 89-91): its map is initialised by
  \<open>make(map[string]DIDDocument)\<close>, and empty. The
  zero value of the struct, which \<open>var r VerifiableDataRegistry\<close> or the literal
  \<open>VerifiableDataRegistry{}\<close> gives, has the nil map instead.
\<close>

definition new_registry :: VerifiableDataRegistry where
  "new_registry = \<lparr>records = Some Map.empty\<rparr>"

definition zero_registry :: VerifiableDataRegistry where
  "zero_registry = \<lparr>records = None\<rparr>"

text \<open>
  The entries a read of the registry's map sees: those of the map, none for the nil map.
\<close>

definition entries :: "VerifiableDataRegistry \<Rightarrow> string \<rightharpoonup> DIDDocument" where
  "entries r = (case records r of None \<Rightarrow> Map.empty | Some f \<Rightarrow> f)"

text \<open>
  A caller that registers the documents of a list one after the other through the same
  pointer, going on after a call that panicked (as a caller that recovers does).
\<close>

fun RegisterDIDs :: "addr option \<Rightarrow> DIDDocument list \<Rightarrow> store \<Rightarrow> store" where
  "RegisterDIDs reg [] s = s"
| "RegisterDIDs reg (doc # docs) s = RegisterDIDs reg docs (snd (RegisterDID reg doc s))"

text \<open>
  The verification method and the document \<open>main\<close> builds (main.go, lines 71-87). The
  bytes of the public key come from the key generator and are a parameter.
\<close>

definition verMethod :: "byte list \<Rightarrow> VerificationMethod" where
  "verMethod publicKeyBytes =
     \<lparr>VerificationMethod.ID = ''key1'',
      Type = ''EcdsaSecp256k1VerificationKey2019'',
      VerificationMethod.Controller = ''subject1'',
      PublicKey = Some publicKeyBytes\<rparr>"

definition subjectID :: string where
  "subjectID = ''subject1''"

definition did :: string where
  "did = ''did:example:'' @ subjectID"

definition doc :: "byte list \<Rightarrow> DIDDocument" where
  "doc publicKeyBytes =
     \<lparr>Context = ''https://www.w3.org/ns/did/v1'',
      ID = did,
      Controller = subjectID,
      VerificationMethods = Some [verMethod publicKeyBytes],
      VerificationRelations = Some [''authentication'' \<mapsto> Some [''key1'']],
      ServiceEndPoints = Some [''profile'' \<mapsto> ''https://profile.example.com/subject1'']\<rparr>"

section \<open>Properties\<close>

subsection \<open>What each method computes\<close>

lemma RegisterDID_made:
  "records (s a) = Some m \<Longrightarrow>
   RegisterDID (Some a) d s = (Inr None, s(a := (s a)\<lparr>records := Some (m(ID d \<mapsto> d))\<rparr>))"
  by (simp add: RegisterDID_def map_assign_def)

lemma RegisterDID_nil_map:
  "records (s a) = None \<Longrightarrow> RegisterDID (Some a) d s = (Inl NilMapAssignment, s)"
  by (simp add: RegisterDID_def map_assign_def)

lemma RegisterDID_nil_receiver: "RegisterDID None d s = (Inl NilDereference, s)"
  by (simp add: RegisterDID_def)

lemma map_index_entries:
  "map_index (records r) k =
     (case entries r k of None \<Rightarrow> (zero_DIDDocument, False) | Some v \<Rightarrow> (v, True))"
  by (simp add: map_index_def entries_def split: option.split)

lemma ResolveDID_bound:
  "registry r = Some a \<Longrightarrow>
   ResolveDID (Some r) k s =
     (case entries (s a) k of
        None \<Rightarrow> (Inr (Some zero_DIDDocument, False), s)
      | Some v \<Rightarrow> (Inr (Some v, True), s))"
  by (simp add: ResolveDID_def map_index_entries split: option.split)

lemma ResolveDID_store: "snd (ResolveDID resolver k s) = s"
  by (simp add: ResolveDID_def split: option.split prod.split)

lemma entries_RegisterDID_made:
  "records (s a) \<noteq> None \<Longrightarrow>
   entries (snd (RegisterDID (Some a) d s) a) = (entries (s a))(ID d \<mapsto> d)"
  by (auto simp: RegisterDID_made entries_def)

lemma entries_RegisterDID_other:
  "k \<noteq> ID d \<Longrightarrow> entries (snd (RegisterDID reg d s) a) k = entries (s a) k"
  by (auto simp: RegisterDID_def map_assign_def entries_def split: option.split)

lemma records_RegisterDID_made:
  "records (s a) \<noteq> None \<Longrightarrow> records (snd (RegisterDID (Some a) d s) a) \<noteq> None"
  by (auto simp: RegisterDID_made)

lemma fst_ResolveDID:
  "fst (ResolveDID resolver k s) =
     (case resolver of
        None \<Rightarrow> Inl NilDereference
      | Some r \<Rightarrow>
          (case registry r of
             None \<Rightarrow> Inl NilDereference
           | Some a \<Rightarrow>
               (case entries (s a) k of
                  None \<Rightarrow> Inr (Some zero_DIDDocument, False)
                | Some v \<Rightarrow> Inr (Some v, True))))"
  by (simp add: ResolveDID_def map_index_entries split: option.split)

text \<open>
  The keys of the map after a run of registrations on a registry whose map is
  initialised: the keys it had, and the identifiers of the documents registered.
\<close>

lemma keys_RegisterDIDs:
  "records (s a) \<noteq> None \<Longrightarrow>
   dom (entries (RegisterDIDs (Some a) ds s a)) = dom (entries (s a)) \<union> ID ` set ds"
proof (induction ds arbitrary: s)
  case Nil
  then show ?case by simp
next
  case (Cons d ds)
  have made: "records (snd (RegisterDID (Some a) d s) a) \<noteq> None"
    using Cons.prems by (rule records_RegisterDID_made)
  have "dom (entries (RegisterDIDs (Some a) (d # ds) s a)) =
        dom (entries (snd (RegisterDID (Some a) d s) a)) \<union> ID ` set ds"
    using Cons.IH [of "snd (RegisterDID (Some a) d s)"] made by simp
  also have "\<dots> = dom (entries (s a)) \<union> ID ` set (d # ds)"
    using Cons.prems by (simp add: entries_RegisterDID_made)
  finally show ?case .
qed

lemma keys_new_registry: "dom (entries new_registry) = {}"
  by (simp add: entries_def new_registry_def)

subsection \<open>Round trip\<close>

text \<open>
  Claim C1, as amended. For every document \<open>d\<close> and every registry whose \<open>records\<close>
  map has been initialised (is not nil), whatever it holds: \<open>RegisterDID(d)\<close> returns the nil
  error, and \<open>ResolveDID(d.ID)\<close> on a resolver bound to that registry then returns
  \<open>found = true\<close> and a pointer to a document equal to \<open>d\<close>.
\<close>

theorem RegisterDID_ResolveDID_roundtrip:
  assumes "records (s a) \<noteq> None" and "registry r = Some a"
  shows "fst (RegisterDID (Some a) d s) = Inr None \<and>
         fst (ResolveDID (Some r) (ID d) (snd (RegisterDID (Some a) d s))) = Inr (Some d, True)"
proof -
  from assms(1) obtain m where m: "records (s a) = Some m" by auto
  have "entries (snd (RegisterDID (Some a) d s) a) (ID d) = Some d"
    using assms(1) by (simp add: entries_RegisterDID_made)
  then have "fst (ResolveDID (Some r) (ID d) (snd (RegisterDID (Some a) d s))) = Inr (Some d, True)"
    using assms(2) by (simp add: ResolveDID_bound)
  moreover have "fst (RegisterDID (Some a) d s) = Inr None"
    using m by (simp add: RegisterDID_made)
  ultimately show ?thesis by simp
qed

text \<open>
  The run of \<open>main\<close>: the registry built at lines 89-91 (here at address 0), the
  resolver bound to it, the document of lines 80-87 registered and resolved.
\<close>

theorem RegisterDID_ResolveDID_roundtrip_main:
  "records (((\<lambda>_. zero_registry)(0 := new_registry)) (0::addr)) \<noteq> None \<and>
   registry \<lparr>registry = Some (0::addr)\<rparr> = Some 0 \<and>
   fst (RegisterDID (Some 0) (doc [4, 1]) ((\<lambda>_. zero_registry)(0 := new_registry))) = Inr None \<and>
   fst (ResolveDID (Some \<lparr>registry = Some 0\<rparr>) did
          (snd (RegisterDID (Some 0) (doc [4, 1]) ((\<lambda>_. zero_registry)(0 := new_registry)))))
     = Inr (Some (doc [4, 1]), True)"
proof -
  have made: "records (((\<lambda>_. zero_registry)(0 := new_registry)) (0::addr)) \<noteq> None"
    by (simp add: new_registry_def)
  have bound: "registry \<lparr>registry = Some (0::addr)\<rparr> = Some 0" by simp
  have "ID (doc [4, 1]) = did" by (simp add: doc_def)
  with RegisterDID_ResolveDID_roundtrip
         [of "(\<lambda>_. zero_registry)(0 := new_registry)" 0 "\<lparr>registry = Some 0\<rparr>" "doc [4, 1]"]
       made bound
  show ?thesis by simp
qed

text \<open>
  Claim C1 as first stated ranges over every registry state. On the zero value of the
  registry, whose map is nil, \<open>RegisterDID\<close> panics at the map write and stores
  nothing; a caller that recovers and resolves the identifier gets \<open>found = false\<close>
  and the zero document.
\<close>

theorem zero_registry_no_roundtrip:
  "fst (RegisterDID (Some 0) (doc [4, 1]) (\<lambda>_. zero_registry)) = Inl NilMapAssignment \<and>
   fst (ResolveDID (Some \<lparr>registry = Some 0\<rparr>) (ID (doc [4, 1]))
          (snd (RegisterDID (Some 0) (doc [4, 1]) (\<lambda>_. zero_registry))))
     = Inr (Some zero_DIDDocument, False)"
  by (simp add: RegisterDID_nil_map zero_registry_def ResolveDID_bound entries_def)

subsection \<open>Resolving\<close>

text \<open>
  Claim C2. \<open>ResolveDID(id)\<close> on a resolver bound to a registry returns exactly the
  entry of the registry's map: \<open>found = true\<close> with the stored document when \<open>id\<close>
  is a key of the map, \<open>found = false\<close> when it is not. After any run of
  registrations on a freshly created registry, \<open>found\<close> tells whether \<open>id\<close> is
  the identifier of a document that was registered, so an identifier never registered is
  not found; on the freshly created registry itself no identifier is found.
\<close>

theorem ResolveDID_correct:
  assumes "registry r = Some a"
  shows "(\<forall>d. entries (s a) k = Some d \<longrightarrow>
            ResolveDID (Some r) k s = (Inr (Some d, True), s)) \<and>
         (entries (s a) k = None \<longrightarrow> (\<exists>p. ResolveDID (Some r) k s = (Inr (p, False), s))) \<and>
         (\<exists>p. fst (ResolveDID (Some r) k (RegisterDIDs (Some a) ds (s(a := new_registry))))
                = Inr (p, k \<in> ID ` set ds)) \<and>
         (\<exists>p. fst (ResolveDID (Some r) k (s(a := new_registry))) = Inr (p, False))"
proof (intro conjI allI impI)
  fix d assume "entries (s a) k = Some d"
  with assms show "ResolveDID (Some r) k s = (Inr (Some d, True), s)"
    by (simp add: ResolveDID_bound)
next
  assume "entries (s a) k = None"
  with assms show "\<exists>p. ResolveDID (Some r) k s = (Inr (p, False), s)"
    by (simp add: ResolveDID_bound)
next
  let ?s0 = "s(a := new_registry)"
  have "records (?s0 a) \<noteq> None" by (simp add: new_registry_def)
  then have keys: "dom (entries (RegisterDIDs (Some a) ds ?s0 a)) = ID ` set ds"
    using keys_RegisterDIDs [of ?s0 a ds] by (simp add: keys_new_registry)
  have key: "(k \<in> ID ` set ds) = (entries (RegisterDIDs (Some a) ds ?s0 a) k \<noteq> None)"
    unfolding keys [symmetric] by (rule domIff)
  show "\<exists>p. fst (ResolveDID (Some r) k (RegisterDIDs (Some a) ds ?s0)) = Inr (p, k \<in> ID ` set ds)"
  proof (cases "entries (RegisterDIDs (Some a) ds ?s0 a) k")
    case None
    with key assms show ?thesis by (simp add: ResolveDID_bound)
  next
    case (Some v)
    with key assms show ?thesis by (simp add: ResolveDID_bound)
  qed
next
  have "entries ((s(a := new_registry)) a) k = None"
    by (simp add: entries_def new_registry_def)
  with assms show "\<exists>p. fst (ResolveDID (Some r) k (s(a := new_registry))) = Inr (p, False)"
    by (simp add: ResolveDID_bound)
qed

text \<open>
  A registry holding the document of \<open>main\<close>: its identifier is found with that
  document, another identifier is not, neither in this registry nor after registering
  the document on a fresh one.
\<close>

theorem ResolveDID_correct_example:
  "registry \<lparr>registry = Some (0::addr)\<rparr> = Some 0 \<and>
   entries (((\<lambda>_. zero_registry)(0 := \<lparr>records = Some [did \<mapsto> doc [4]]\<rparr>)) 0) did = Some (doc [4]) \<and>
   ResolveDID (Some \<lparr>registry = Some 0\<rparr>) did
       ((\<lambda>_. zero_registry)(0 := \<lparr>records = Some [did \<mapsto> doc [4]]\<rparr>))
     = (Inr (Some (doc [4]), True), (\<lambda>_. zero_registry)(0 := \<lparr>records = Some [did \<mapsto> doc [4]]\<rparr>)) \<and>
   entries (((\<lambda>_. zero_registry)(0 := \<lparr>records = Some [did \<mapsto> doc [4]]\<rparr>)) 0)
       ''did:example:subject2'' = None \<and>
   (\<exists>p. ResolveDID (Some \<lparr>registry = Some 0\<rparr>) ''did:example:subject2''
           ((\<lambda>_. zero_registry)(0 := \<lparr>records = Some [did \<mapsto> doc [4]]\<rparr>))
         = (Inr (p, False), (\<lambda>_. zero_registry)(0 := \<lparr>records = Some [did \<mapsto> doc [4]]\<rparr>))) \<and>
   (\<exists>p. fst (ResolveDID (Some \<lparr>registry = Some 0\<rparr>) ''did:example:subject2''
                (RegisterDIDs (Some 0) [doc [4]] (\<lambda>_. new_registry)))
         = Inr (p, False))"
proof -
  let ?r = "\<lparr>registry = Some (0::addr)\<rparr>"
  let ?s = "(\<lambda>_. zero_registry)(0 := \<lparr>records = Some [did \<mapsto> doc [4]]\<rparr>)"
  have bound: "registry ?r = Some 0" by simp
  have held: "entries (?s 0) did = Some (doc [4])" by (simp add: entries_def)
  have other: "entries (?s 0) ''did:example:subject2'' = None"
    by (simp add: entries_def did_def subjectID_def)
  have never: "''did:example:subject2'' \<notin> ID ` set [doc [4]]"
    by (simp add: doc_def did_def subjectID_def)
  have fresh: "(\<lambda>_. new_registry)(0 := new_registry) = (\<lambda>_::addr. new_registry)" by auto
  from ResolveDID_correct [OF bound, of ?s did "[]"] held
  have 1: "ResolveDID (Some ?r) did ?s = (Inr (Some (doc [4]), True), ?s)" by blast
  from ResolveDID_correct [OF bound, of ?s "''did:example:subject2''" "[]"] other
  have 2: "\<exists>p. ResolveDID (Some ?r) ''did:example:subject2'' ?s = (Inr (p, False), ?s)" by blast
  from ResolveDID_correct [OF bound, of "\<lambda>_. new_registry" "''did:example:subject2''" "[doc [4]]"] never
  have 3: "\<exists>p. fst (ResolveDID (Some ?r) ''did:example:subject2''
                (RegisterDIDs (Some 0) [doc [4]] (\<lambda>_. new_registry))) = Inr (p, False)"
    by (simp only: fresh)
  from bound held other 1 2 3 show ?thesis by blast
qed

subsection \<open>Last write wins\<close>

text \<open>
  Claim C3, as amended. On a registry whose \<open>records\<close> map has been initialised
  (is not nil), for every
  two documents \<open>d1\<close> and \<open>d2\<close> with the same \<open>ID\<close>: \<open>RegisterDID(d1)\<close>
  and then \<open>RegisterDID(d2)\<close> both return the nil error, \<open>ResolveDID(d1.ID)\<close>
  then returns \<open>d2\<close>, and the store is the one that registering \<open>d2\<close> alone
  leaves: nothing of \<open>d1\<close> remains.
\<close>

theorem RegisterDID_last_write_wins:
  assumes "records (s a) \<noteq> None" and "registry r = Some a" and "ID d1 = ID d2"
  shows "fst (RegisterDID (Some a) d1 s) = Inr None \<and>
         fst (RegisterDID (Some a) d2 (snd (RegisterDID (Some a) d1 s))) = Inr None \<and>
         fst (ResolveDID (Some r) (ID d1)
               (snd (RegisterDID (Some a) d2 (snd (RegisterDID (Some a) d1 s)))))
           = Inr (Some d2, True) \<and>
         snd (RegisterDID (Some a) d2 (snd (RegisterDID (Some a) d1 s)))
           = snd (RegisterDID (Some a) d2 s)"
proof -
  from assms(1) obtain m where m: "records (s a) = Some m" by auto
  let ?s1 = "snd (RegisterDID (Some a) d1 s)"
  have s1: "RegisterDID (Some a) d1 s = (Inr None, s(a := (s a)\<lparr>records := Some (m(ID d1 \<mapsto> d1))\<rparr>))"
    using m by (rule RegisterDID_made)
  have m1: "records (?s1 a) = Some (m(ID d1 \<mapsto> d1))" by (simp add: s1)
  have s2: "RegisterDID (Some a) d2 ?s1 =
              (Inr None, ?s1(a := (?s1 a)\<lparr>records := Some ((m(ID d1 \<mapsto> d1))(ID d2 \<mapsto> d2))\<rparr>))"
    using m1 by (rule RegisterDID_made)
  have once: "RegisterDID (Some a) d2 s = (Inr None, s(a := (s a)\<lparr>records := Some (m(ID d2 \<mapsto> d2))\<rparr>))"
    using m by (rule RegisterDID_made)
  have same: "snd (RegisterDID (Some a) d2 ?s1) = snd (RegisterDID (Some a) d2 s)"
    by (simp add: s2 once) (simp add: s1 assms(3))
  have "entries (snd (RegisterDID (Some a) d2 s) a) (ID d1) = Some d2"
    using assms by (simp add: entries_RegisterDID_made)
  then have "fst (ResolveDID (Some r) (ID d1) (snd (RegisterDID (Some a) d2 ?s1))) = Inr (Some d2, True)"
    using assms(2) by (simp only: same) (simp add: ResolveDID_bound)
  moreover have "fst (RegisterDID (Some a) d1 s) = Inr None" by (simp add: s1)
  moreover have "fst (RegisterDID (Some a) d2 ?s1) = Inr None" by (simp only: s2 fst_conv)
  ultimately show ?thesis using same by blast
qed

text \<open>
  Two documents as \<open>main\<close> builds them, with different key bytes: the same
  identifier, different documents, and the second is the one resolved.
\<close>

theorem RegisterDID_last_write_wins_example:
  "records ((\<lambda>_::addr. new_registry) 1) \<noteq> None \<and>
   registry \<lparr>registry = Some (1::addr)\<rparr> = Some 1 \<and>
   ID (doc [4, 1]) = ID (doc [4, 2]) \<and>
   doc [4, 1] \<noteq> doc [4, 2] \<and>
   fst (ResolveDID (Some \<lparr>registry = Some 1\<rparr>) (ID (doc [4, 1]))
          (snd (RegisterDID (Some 1) (doc [4, 2])
             (snd (RegisterDID (Some 1) (doc [4, 1]) (\<lambda>_. new_registry))))))
     = Inr (Some (doc [4, 2]), True)"
proof -
  have made: "records ((\<lambda>_::addr. new_registry) 1) \<noteq> None" by (simp add: new_registry_def)
  have bound: "registry \<lparr>registry = Some (1::addr)\<rparr> = Some 1" by simp
  have same: "ID (doc [4, 1]) = ID (doc [4, 2])" by (simp add: doc_def)
  have differ: "doc [4, 1] \<noteq> doc [4, 2]" by (simp add: doc_def verMethod_def)
  from RegisterDID_last_write_wins
         [of "\<lambda>_. new_registry" 1 "\<lparr>registry = Some 1\<rparr>" "doc [4, 1]" "doc [4, 2]"]
       made bound same differ
  show ?thesis by blast
qed

text \<open>
  Claim C3 as first stated names no registry. On the zero value of the registry both
  registrations panic at the map write, and resolving the identifier afterwards does
  not return the second document: it returns \<open>found = false\<close> and the zero document.
\<close>

theorem zero_registry_no_last_write:
  "ID (doc [4, 1]) = ID (doc [4, 2]) \<and>
   fst (RegisterDID (Some 0) (doc [4, 1]) (\<lambda>_. zero_registry)) = Inl NilMapAssignment \<and>
   fst (ResolveDID (Some \<lparr>registry = Some 0\<rparr>) (ID (doc [4, 1]))
          (snd (RegisterDID (Some 0) (doc [4, 2])
             (snd (RegisterDID (Some 0) (doc [4, 1]) (\<lambda>_. zero_registry))))))
     = Inr (Some zero_DIDDocument, False)"
  by (simp add: RegisterDID_nil_map zero_registry_def ResolveDID_bound entries_def doc_def)

subsection \<open>Frame\<close>

text \<open>
  Claim C4. For every document \<open>d\<close> and every identifier \<open>idB\<close> other than
  \<open>d.ID\<close>, \<open>RegisterDID(d)\<close> leaves the result of \<open>ResolveDID(idB)\<close> as it
  was, for every resolver and in every store, and the entry of \<open>idB\<close> in every
  registry's map is preserved.
\<close>

theorem RegisterDID_frame:
  assumes "idB \<noteq> ID d"
  shows "fst (ResolveDID resolver idB (snd (RegisterDID reg d s))) = fst (ResolveDID resolver idB s) \<and>
         (\<forall>a. entries (snd (RegisterDID reg d s) a) idB = entries (s a) idB)"
  using assms by (simp add: fst_ResolveDID entries_RegisterDID_other split: option.split)

text \<open>
  A registry holding a document under another identifier: after the document of
  \<open>main\<close> is registered, the other identifier still resolves to its own document.
\<close>

theorem RegisterDID_frame_example:
  "''did:example:subject2'' \<noteq> ID (doc [4]) \<and>
   fst (ResolveDID (Some \<lparr>registry = Some 0\<rparr>) ''did:example:subject2''
          (snd (RegisterDID (Some 0) (doc [4])
             ((\<lambda>_. zero_registry)
                (0 := \<lparr>records = Some [''did:example:subject2'' \<mapsto> zero_DIDDocument\<lparr>ID := ''did:example:subject2''\<rparr>]\<rparr>)))))
     = Inr (Some (zero_DIDDocument\<lparr>ID := ''did:example:subject2''\<rparr>), True)"
proof -
  let ?d2 = "zero_DIDDocument\<lparr>ID := ''did:example:subject2''\<rparr>"
  let ?s = "(\<lambda>_. zero_registry)(0 := \<lparr>records = Some [''did:example:subject2'' \<mapsto> ?d2]\<rparr>)"
  have other: "''did:example:subject2'' \<noteq> ID (doc [4])"
    by (simp add: doc_def did_def subjectID_def)
  have before: "fst (ResolveDID (Some \<lparr>registry = Some 0\<rparr>) ''did:example:subject2'' ?s)
                  = Inr (Some ?d2, True)"
    by (simp add: ResolveDID_bound entries_def)
  from RegisterDID_frame [OF other, of "Some \<lparr>registry = Some 0\<rparr>" "Some 0" ?s] before other
  show ?thesis by simp
qed

subsection \<open>Registration does not fail\<close>

text \<open>
  Claim C5, as amended. For every document \<open>d\<close> and every registry whose
  \<open>records\<close> map has been initialised (is not nil), \<open>RegisterDID(d)\<close> returns the nil
  error; and in no state, for no document and no receiver, does \<open>RegisterDID\<close>
  return an error that is not nil: no document is rejected.
\<close>

theorem RegisterDID_returns_nil:
  assumes "records (s a) \<noteq> None"
  shows "fst (RegisterDID (Some a) d s) = Inr None \<and>
         (\<forall>reg' d' s' e. fst (RegisterDID reg' d' s') \<noteq> Inr (Some e))"
proof -
  from assms obtain m where "records (s a) = Some m" by auto
  then have "fst (RegisterDID (Some a) d s) = Inr None" by (simp add: RegisterDID_made)
  moreover have "\<forall>reg' d' s' e. fst (RegisterDID reg' d' s') \<noteq> Inr (Some e)"
    by (simp add: RegisterDID_def split: option.split sum.split)
  ultimately show ?thesis by simp
qed

theorem RegisterDID_returns_nil_example:
  "records (((\<lambda>_. zero_registry)(2 := new_registry)) (2::addr)) \<noteq> None \<and>
   fst (RegisterDID (Some 2) (doc []) ((\<lambda>_. zero_registry)(2 := new_registry))) = Inr None"
proof -
  have made: "records (((\<lambda>_. zero_registry)(2 := new_registry)) (2::addr)) \<noteq> None"
    by (simp add: new_registry_def)
  from RegisterDID_returns_nil [of "(\<lambda>_. zero_registry)(2 := new_registry)" 2 "doc []"] made
  show ?thesis by blast
qed

text \<open>
  Claim C5 as first stated ranges over every registry state. On a registry that is the
  zero value of the struct, \<open>RegisterDID\<close> does not return the nil error: it
  panics at the map write.
\<close>

theorem zero_registry_RegisterDID_panics:
  "fst (RegisterDID (Some 2) (doc []) ((\<lambda>_. new_registry)(2 := zero_registry)))
     = Inl NilMapAssignment \<and>
   fst (RegisterDID (Some 2) (doc []) ((\<lambda>_. new_registry)(2 := zero_registry))) \<noteq> Inr None"
  by (simp add: RegisterDID_nil_map zero_registry_def)

subsection \<open>Resolving is read-only\<close>

text \<open>
  Claim C6. For every identifier, \<open>ResolveDID\<close> leaves the store, hence the
  \<open>records\<close> map of the bound registry and of every other one, unchanged; a second
  resolve therefore answers as it would have without the first.
\<close>

theorem ResolveDID_read_only:
  "snd (ResolveDID resolver k s) = s \<and>
   ResolveDID resolver k' (snd (ResolveDID resolver k s)) = ResolveDID resolver k' s"
  by (simp add: ResolveDID_store)

subsection \<open>Not found\<close>

text \<open>
  Claim C8. For every identifier that is not a key of the bound registry's map,
  \<open>ResolveDID\<close> returns \<open>found = false\<close> together with a pointer that is not nil
  and points to the zero value of \<open>DIDDocument\<close>, all of whose fields are empty.
\<close>

theorem ResolveDID_not_found:
  assumes "registry r = Some a" and "k \<notin> dom (entries (s a))"
  shows "ResolveDID (Some r) k s = (Inr (Some zero_DIDDocument, False), s)"
  using assms by (simp add: ResolveDID_bound dom_def)

theorem ResolveDID_not_found_example:
  "registry \<lparr>registry = Some (5::addr)\<rparr> = Some 5 \<and>
   ''did:example:nobody'' \<notin> dom (entries (((\<lambda>_::addr. zero_registry)(5 := \<lparr>records = Some [did \<mapsto> doc [4]]\<rparr>)) 5)) \<and>
   ResolveDID (Some \<lparr>registry = Some 5\<rparr>) ''did:example:nobody''
       ((\<lambda>_. zero_registry)(5 := \<lparr>records = Some [did \<mapsto> doc [4]]\<rparr>))
     = (Inr (Some \<lparr>Context = [], ID = [], Controller = [], VerificationMethods = None,
                   VerificationRelations = None, ServiceEndPoints = None\<rparr>, False),
        (\<lambda>_. zero_registry)(5 := \<lparr>records = Some [did \<mapsto> doc [4]]\<rparr>))"
proof -
  let ?s = "(\<lambda>_::addr. zero_registry)(5 := \<lparr>records = Some [did \<mapsto> doc [4]]\<rparr>)"
  have bound: "registry \<lparr>registry = Some (5::addr)\<rparr> = Some 5" by simp
  have absent: "''did:example:nobody'' \<notin> dom (entries (?s 5))"
    by (simp add: entries_def did_def subjectID_def)
  from ResolveDID_not_found [of "\<lparr>registry = Some 5\<rparr>" 5 "''did:example:nobody''" ?s] bound absent
  show ?thesis by (simp add: zero_DIDDocument_def)
qed

subsection \<open>The initialised map as precondition\<close>

text \<open>
  Claim C9. When the \<open>records\<close> map of the registry has been initialised (as by
  \<open>make(map[string]DIDDocument)\<close>), \<open>RegisterDID\<close> ends in no panic; on a registry whose map is nil, as in the zero value of
  \<open>VerifiableDataRegistry\<close>, the map write panics and the store stays as it was.
\<close>

theorem RegisterDID_initialized:
  "(records (s a) \<noteq> None \<longrightarrow> (\<forall>p. fst (RegisterDID (Some a) d s) \<noteq> Inl p)) \<and>
   (records (s a) = None \<longrightarrow> RegisterDID (Some a) d s = (Inl NilMapAssignment, s))"
  by (auto simp: RegisterDID_made RegisterDID_nil_map)

text \<open>The registry as \<open>main\<close> builds it, and the zero value of the struct.\<close>

theorem RegisterDID_initialized_example:
  "records (new_registry) \<noteq> None \<and>
   (\<forall>p. fst (RegisterDID (Some 0) (doc [4]) (\<lambda>_. new_registry)) \<noteq> Inl p) \<and>
   records (zero_registry) = None \<and>
   RegisterDID (Some 0) (doc [4]) (\<lambda>_. zero_registry) = (Inl NilMapAssignment, \<lambda>_. zero_registry)"
proof -
  have made: "records ((\<lambda>_::addr. new_registry) 0) \<noteq> None" by (simp add: new_registry_def)
  have nil: "records ((\<lambda>_::addr. zero_registry) 0) = None" by (simp add: zero_registry_def)
  from RegisterDID_initialized [of "\<lambda>_. new_registry" 0 "doc [4]"] made
  have 1: "\<forall>p. fst (RegisterDID (Some 0) (doc [4]) (\<lambda>_. new_registry)) \<noteq> Inl p" by blast
  from RegisterDID_initialized [of "\<lambda>_. zero_registry" 0 "doc [4]"] nil
  have 2: "RegisterDID (Some 0) (doc [4]) (\<lambda>_. zero_registry) = (Inl NilMapAssignment, \<lambda>_. zero_registry)"
    by blast
  from made nil 1 2 show ?thesis by simp
qed

subsection \<open>Idempotence\<close>

text \<open>
  Claim C10. For every document, every receiver and every store, calling
  \<open>RegisterDID(d)\<close> a second time right after the first leaves the store that the
  first call left, and ends as the first call did.
\<close>

theorem RegisterDID_idempotent:
  "RegisterDID reg d (snd (RegisterDID reg d s)) = RegisterDID reg d s"
proof (cases reg)
  case None
  then show ?thesis by (simp add: RegisterDID_nil_receiver)
next
  case (Some a)
  show ?thesis
  proof (cases "records (s a)")
    case None
    then show ?thesis by (simp add: Some RegisterDID_nil_map)
  next
    case (Some m)
    then show ?thesis by (simp add: \<open>reg = Some a\<close> RegisterDID_made)
  qed
qed

subsection \<open>Runs of registrations, one call after the other\<close>

text \<open>
  A registration writes to the registry of its receiver only, and a run of registrations
  leaves the entries of the identifiers it does not register as they were.
\<close>

lemma RegisterDID_other_registry:
  "b \<noteq> a \<Longrightarrow> snd (RegisterDID (Some a) d s) b = s b"
  by (simp add: RegisterDID_def map_assign_def split: option.split)

lemma entries_RegisterDIDs_other:
  "k \<notin> ID ` set ds \<Longrightarrow> entries (RegisterDIDs reg ds s a) k = entries (s a) k"
  by (induction ds arbitrary: s) (simp_all add: entries_RegisterDID_other)

text \<open>
  When the documents of a run have pairwise different identifiers and the map has been
  initialised, each of them is resolved afterwards. The calls of the run follow one another;
  nothing is said here of calls that overlap in time.
\<close>

lemma entries_RegisterDIDs_distinct:
  "records (s a) \<noteq> None \<Longrightarrow> distinct (map ID ds) \<Longrightarrow> d \<in> set ds \<Longrightarrow>
   entries (RegisterDIDs (Some a) ds s a) (ID d) = Some d"
proof (induction ds arbitrary: s)
  case Nil
  then show ?case by simp
next
  case (Cons x xs)
  let ?s1 = "snd (RegisterDID (Some a) x s)"
  have made: "records (?s1 a) \<noteq> None"
    using Cons.prems(1) by (rule records_RegisterDID_made)
  show ?case
  proof (cases "d = x")
    case True
    from Cons.prems(2) have "ID x \<notin> ID ` set xs" by simp
    then have "entries (RegisterDIDs (Some a) xs ?s1 a) (ID x) = entries (?s1 a) (ID x)"
      by (rule entries_RegisterDIDs_other)
    also have "\<dots> = Some x"
      using Cons.prems(1) by (simp add: entries_RegisterDID_made)
    finally show ?thesis using True by simp
  next
    case False
    with Cons.prems have "distinct (map ID xs)" and "d \<in> set xs" by simp_all
    with made have "entries (RegisterDIDs (Some a) xs ?s1 a) (ID d) = Some d"
      using Cons.IH [of ?s1] by simp
    then show ?thesis by simp
  qed
qed

lemma RegisterDIDs_distinct_resolvable:
  assumes "records (s a) \<noteq> None" and "registry r = Some a"
    and "distinct (map ID ds)" and "d \<in> set ds"
  shows "fst (ResolveDID (Some r) (ID d) (RegisterDIDs (Some a) ds s)) = Inr (Some d, True)"
  using entries_RegisterDIDs_distinct [of s a ds d] assms
  by (simp add: ResolveDID_bound)

end
